theory Spec2Isabelle
  imports Main
begin

section \<open>The models module of login.webmaker.org (app/db/models/index.js)\<close>

text \<open>
  The module wires five Sequelize models and exports the operations on them. This theory
  embeds the token, reset-code and password operations: \<open>createToken\<close>,
  \<open>lookupToken\<close>, \<open>invalidateActiveResets\<close>, \<open>createResetCode\<close>, \<open>validateReset\<close>,
  \<open>changePassword\<close>, \<open>removePassword\<close> and \<open>compare\<close>.

  Every operation of the source ends by calling \<open>callback\<close>; the model returns the
  arguments the callback receives together with the new state of the world (the tables
  and the messages handed to \<open>hatchet.send\<close>). What the environment decides (the clock,
  whether a store call fails, what bcrypt answers, the random strings) is an explicit
  argument.
\<close>

subsection \<open>Constants\<close>

definition TOKEN_EXPIRY_TIME :: int where
  "TOKEN_EXPIRY_TIME = 1000 * 60 * 30"

definition RESET_CODE_BIT_LENGTH :: nat where
  "RESET_CODE_BIT_LENGTH = 256"

definition RESET_CODE_BASE :: nat where
  "RESET_CODE_BASE = 16"

definition RESET_EXPIRY_TIME :: int where
  "RESET_EXPIRY_TIME = 1000 * 60 * 60 * 24"

definition BCRYPT_ROUNDS :: nat where
  "BCRYPT_ROUNDS = 12"

subsection \<open>Rows, instances and the world\<close>

text \<open>
  Times are JavaScript time stamps: milliseconds since the epoch, as \<open>Date.now()\<close>
  returns them.

  A table of login tokens or reset codes is the list of its rows in primary-key order: the
  position of a row is its primary key. The source never deletes a row of these two
  tables, so positions are stable.
\<close>

record loginToken =
  lt_UserId :: nat
  lt_token :: string
  lt_used :: bool
  lt_createdAt :: int

record resetCode =
  rc_UserId :: nat
  rc_code :: string
  rc_used :: bool
  rc_invalid :: bool
  rc_createdAt :: int

text \<open>
  A password instance: \<open>pw_id\<close> is \<open>None\<close> for an instance that \<open>password.build()\<close>
  made and nobody saved yet, \<open>pw_UserId\<close> is the foreign key of \<open>password.belongsTo(user)\<close>
  (\<open>None\<close> is SQL NULL) and \<open>pw_saltedHash\<close> is \<open>None\<close> where JavaScript has
  \<open>undefined\<close>.
\<close>

record password =
  pw_id :: "nat option"
  pw_UserId :: "nat option"
  pw_saltedHash :: "string option"

record user_row =
  uid :: nat
  username :: string
  email :: string
  verified :: bool
  usePasswordLogin :: bool

text \<open>
  A user instance as the operations receive it: the row, and \<open>user.password\<close>, the
  associated password instance when the caller loaded one (\<open>None\<close> is \<open>undefined\<close>).
\<close>

record user = user_row +
  user_password :: "password option"

datatype jsval = JString string | JNumber int | JBool bool

type_synonym event = "string \<times> (string \<times> jsval) list"

record world =
  loginTokens :: "loginToken list"
  resetCodes :: "resetCode list"
  passwords :: "password list"
  users :: "user_row list"
  hatchet :: "event list"

text \<open>
  What the callback receives as its error argument: an object \<open>{error: s}\<close>, a plain
  string, or the error object of a library (the store or bcrypt) passed through.
\<close>

datatype js_err = ErrObj string | ErrStr string | ErrLib string

text \<open>
  A function of the source either calls its callback or throws before it gets there.
\<close>

datatype 'a outcome = Throws string | Calls 'a

text \<open>
  The setter of an association hands back an event emitter. It ends in \<open>success\<close>, or
  in \<open>error\<close> with the store's error, or it never fires; a promise chain that waits for
  it then never reaches the callback.
\<close>

datatype settled = Pending | Rejected string | Resolved

datatype 'a callback = NotCalled | Callback 'a

text \<open>
  The environment of one call. \<open>now\<close> is the clock (\<open>Date.now()\<close>, and the
  \<open>createdAt\<close> the store stamps on a saved row). Each \<open>_error\<close> field is the error with
  which the store call of that kind fails in this call, \<open>None\<close> when it succeeds;
  \<open>getPassword_error\<close>, \<open>unlink_error\<close> and \<open>link_error\<close> are those of the three
  store calls inside \<open>user.setPassword\<close>. The bcrypt fields are what the bcrypt library passes to its callbacks, as pairs
  \<open>(err, result)\<close>; the library is taken to call back in every case.
\<close>

record env =
  now :: int
  find_error :: "string option"
  update_error :: "string option"
  save_error :: "string option"
  destroy_error :: "string option"
  getPassword_error :: "string option"
  unlink_error :: "string option"
  link_error :: "string option"
  bcrypt_genSalt :: "nat \<Rightarrow> string option \<times> string option"
  bcrypt_hash :: "string \<Rightarrow> string option \<Rightarrow> string option \<times> string option"
  bcrypt_compare :: "string \<Rightarrow> string option \<Rightarrow> string option \<times> bool option"
  WEBMAKERORG :: string

subsection \<open>Store primitives\<close>

text \<open>
  \<open>Model.find({where: ...})\<close> yields the first row that satisfies the condition, or
  nothing. The model returns its primary key (its position).
\<close>

fun findIndex :: "('a \<Rightarrow> bool) \<Rightarrow> 'a list \<Rightarrow> nat option" where
  "findIndex P [] = None"
| "findIndex P (x # xs) = (if P x then Some 0 else map_option Suc (findIndex P xs))"

text \<open>
  \<open>moment(ms).utc().format("YYYY-MM-DD HH:mm:ss Z")\<close> prints an instant down to its
  seconds: the milliseconds are dropped. The model keeps the instant that the printed
  string denotes, as a time stamp.
\<close>

definition format_utc :: "int \<Rightarrow> int" where
  "format_utc ms = (ms div 1000) * 1000"

subsection \<open>lookupToken\<close>

text \<open>The \<open>where\<close> clause of \<open>lookupToken\<close>.\<close>

definition token_where :: "int \<Rightarrow> nat \<Rightarrow> string \<Rightarrow> loginToken \<Rightarrow> bool" where
  "token_where t u tok r \<longleftrightarrow>
     lt_UserId r = u \<and> lt_token r = tok \<and> lt_used r = False \<and>
     format_utc (t - TOKEN_EXPIRY_TIME) \<le> lt_createdAt r"

text \<open>
  The two store calls of \<open>lookupToken\<close>, in the order of the promise chain: the
  \<open>find\<close>, and the handler that rejects with \<open>{error: "unauthorized"}\<close> or runs
  \<open>updateAttributes({used: true}, ["used"])\<close> on the instance found (an update of the
  row with that primary key).
\<close>

definition lookupToken_find :: "env \<Rightarrow> world \<Rightarrow> user \<Rightarrow> string \<Rightarrow> js_err + nat option" where
  "lookupToken_find e w userObj tok =
     (case find_error e of
        Some err \<Rightarrow> Inl (ErrLib err)
      | None \<Rightarrow> Inr (findIndex (token_where (now e) (uid userObj) tok) (loginTokens w)))"

definition lookupToken_then :: "env \<Rightarrow> world \<Rightarrow> nat option \<Rightarrow> js_err option \<times> world" where
  "lookupToken_then e w found =
     (case found of
        None \<Rightarrow> (Some (ErrObj ''unauthorized''), w)
      | Some i \<Rightarrow>
          (case update_error e of
             Some err \<Rightarrow> (Some (ErrLib err), w)
           | None \<Rightarrow>
               (None, w\<lparr>loginTokens := (loginTokens w)[i := (loginTokens w ! i)\<lparr>lt_used := True\<rparr>]\<rparr>)))"

definition lookupToken :: "env \<Rightarrow> world \<Rightarrow> user \<Rightarrow> string \<Rightarrow> js_err option \<times> world" where
  "lookupToken e w userObj tok =
     (case lookupToken_find e w userObj tok of
        Inl err \<Rightarrow> (Some err, w)
      | Inr found \<Rightarrow> lookupToken_then e w found)"

subsection \<open>createToken\<close>

text \<open>
  Modelled from the spec: the model file loginToken.js, which declares the columns and
  their defaults, is not part of the sources at hand. The spec's data model gives a new
  login token \<open>Used\<close> initially false and \<open>CreatedAt\<close> set at issuance.
\<close>

definition loginToken_build :: "string \<Rightarrow> nat \<Rightarrow> int \<Rightarrow> loginToken" where
  "loginToken_build tok u t =
     \<lparr>lt_UserId = u, lt_token = tok, lt_used = False, lt_createdAt = t\<rparr>"

text \<open>
  \<open>tok\<close> is the value of \<open>proquint.encode(crypto.randomBytes(4))\<close> in this call.
\<close>

definition createToken :: "env \<Rightarrow> world \<Rightarrow> user \<Rightarrow> string \<Rightarrow> string \<Rightarrow> js_err option \<times> world" where
  "createToken e w userObj appURL tok =
     (case save_error e of
        Some err \<Rightarrow> (Some (ErrLib err), w)
      | None \<Rightarrow>
          (None,
           w\<lparr>loginTokens := loginTokens w @ [loginToken_build tok (uid userObj) (now e)],
             hatchet := hatchet w @
               [(''login_token_email'',
                 [(''userId'', JNumber (int (uid userObj))),
                  (''username'', JString (username userObj)),
                  (''verified'', JBool (verified userObj)),
                  (''email'', JString (email userObj)),
                  (''loginUrl'', JString (appURL @ ''/?uid='' @ username userObj @ ''&token='' @ tok)),
                  (''token'', JString tok)])]\<rparr>))"

subsection \<open>invalidateActiveResets\<close>

text \<open>The \<open>where\<close> clause of the bulk update.\<close>

definition active_where :: "int \<Rightarrow> nat \<Rightarrow> resetCode \<Rightarrow> bool" where
  "active_where t u r \<longleftrightarrow>
     rc_UserId r = u \<and> rc_used r = False \<and> rc_invalid r = False \<and>
     format_utc (t - RESET_EXPIRY_TIME) \<le> rc_createdAt r"

text \<open>
  \<open>resetCode.update({invalid: true}, where)\<close> is one conditional update of the table;
  it resolves to the number of rows it changed. The callback receives \<open>(null, n)\<close>, or
  the store's error alone.
\<close>

definition invalidateActiveResets :: "env \<Rightarrow> world \<Rightarrow> user \<Rightarrow> (js_err option \<times> nat option) \<times> world" where
  "invalidateActiveResets e w u =
     (case update_error e of
        Some err \<Rightarrow> ((Some (ErrLib err), None), w)
      | None \<Rightarrow>
          ((None, Some (length (filter (active_where (now e) (uid u)) (resetCodes w)))),
           w\<lparr>resetCodes :=
               map (\<lambda>r. if active_where (now e) (uid u) r then r\<lparr>rc_invalid := True\<rparr> else r)
                 (resetCodes w)\<rparr>))"

subsection \<open>createResetCode\<close>

text \<open>
  Modelled from the spec: the model file resetCode.js is not part of the sources at hand.
  The spec's data model gives a new reset code \<open>Used\<close> and \<open>Invalid\<close> initially false
  and \<open>CreatedAt\<close> set at issuance.
\<close>

definition resetCode_build :: "string \<Rightarrow> nat \<Rightarrow> int \<Rightarrow> resetCode" where
  "resetCode_build c u t =
     \<lparr>rc_UserId = u, rc_code = c, rc_used = False, rc_invalid = False, rc_createdAt = t\<rparr>"

text \<open>
  \<open>c\<close> is the value of \<open>hat(RESET_CODE_BIT_LENGTH, RESET_CODE_BASE)\<close> in this call.
  The function saves the row and nothing else: it does not touch the older rows.
\<close>

definition createResetCode :: "env \<Rightarrow> world \<Rightarrow> user \<Rightarrow> string \<Rightarrow> js_err option \<times> world" where
  "createResetCode e w u c =
     (case save_error e of
        Some err \<Rightarrow> (Some (ErrStr ''Error Creating Reset Authorization''), w)
      | None \<Rightarrow>
          (None,
           w\<lparr>resetCodes := resetCodes w @ [resetCode_build c (uid u) (now e)],
             hatchet := hatchet w @
               [(''reset_code_created'',
                 [(''email'', JString (email u)),
                  (''username'', JString (username u)),
                  (''resetUrl'', JString (WEBMAKERORG e @ ''/?uid='' @ username u @ ''&resetCode='' @ c))])]\<rparr>))"

subsection \<open>validateReset\<close>

definition reset_where :: "int \<Rightarrow> nat \<Rightarrow> string \<Rightarrow> resetCode \<Rightarrow> bool" where
  "reset_where t u c r \<longleftrightarrow>
     rc_code r = c \<and> rc_UserId r = u \<and> rc_used r = False \<and> rc_invalid r = False \<and>
     format_utc (t - RESET_EXPIRY_TIME) \<le> rc_createdAt r"

text \<open>
  As in \<open>lookupToken\<close>, two store calls: the \<open>find\<close>, and the handler that calls
  back \<open>(null, false)\<close> or updates the instance found and calls back \<open>(null, true)\<close>.
\<close>

definition validateReset_find :: "env \<Rightarrow> world \<Rightarrow> string \<Rightarrow> user \<Rightarrow> js_err + nat option" where
  "validateReset_find e w c u =
     (case find_error e of
        Some err \<Rightarrow> Inl (ErrLib err)
      | None \<Rightarrow> Inr (findIndex (reset_where (now e) (uid u) c) (resetCodes w)))"

definition validateReset_then :: "env \<Rightarrow> world \<Rightarrow> nat option \<Rightarrow> (js_err option \<times> bool option) \<times> world" where
  "validateReset_then e w found =
     (case found of
        None \<Rightarrow> ((None, Some False), w)
      | Some i \<Rightarrow>
          (case update_error e of
             Some err \<Rightarrow> ((Some (ErrLib err), None), w)
           | None \<Rightarrow>
               ((None, Some True),
                w\<lparr>resetCodes := (resetCodes w)[i := (resetCodes w ! i)\<lparr>rc_used := True\<rparr>]\<rparr>)))"

definition validateReset :: "env \<Rightarrow> world \<Rightarrow> string \<Rightarrow> user \<Rightarrow> (js_err option \<times> bool option) \<times> world" where
  "validateReset e w c u =
     (case validateReset_find e w c u of
        Inl err \<Rightarrow> ((Some err, None), w)
      | Inr found \<Rightarrow> validateReset_then e w found)"

subsection \<open>changePassword\<close>

text \<open>
  Modelled from the spec: the model file password.js is not part of the sources at hand.
  The spec's PasswordCredential has an owner reference and a salted hash; a freshly built
  instance has neither, and no primary key before it is saved.
\<close>

definition password_build :: password where
  "password_build = \<lparr>pw_id = None, pw_UserId = None, pw_saltedHash = None\<rparr>"

text \<open>
  \<open>user.updateAttributes({usePasswordLogin: b}, ["usePasswordLogin"])\<close>: an update of
  the user's row.
\<close>

definition set_usePasswordLogin :: "bool \<Rightarrow> nat \<Rightarrow> user_row list \<Rightarrow> user_row list" where
  "set_usePasswordLogin b u rows =
     map (\<lambda>r. if uid r = u then r\<lparr>usePasswordLogin := b\<rparr> else r) rows"

text \<open>
  Saving a password instance: an instance without a primary key is inserted under the next
  free key (keys count from 1), one with a key overwrites the row of that key; when no row
  has that key the update changes nothing and still succeeds.
\<close>

definition fresh_id :: "password list \<Rightarrow> nat" where
  "fresh_id rows = fold (\<lambda>r m. case pw_id r of None \<Rightarrow> m | Some i \<Rightarrow> max m (Suc i)) rows 1"

definition save_password :: "password \<Rightarrow> password list \<Rightarrow> password list" where
  "save_password p rows =
     (case pw_id p of
        None \<Rightarrow> rows @ [p\<lparr>pw_id := Some (fresh_id rows)\<rparr>]
      | Some i \<Rightarrow> map (\<lambda>r. if pw_id r = Some i then p else r) rows)"

text \<open>
  \<open>user.setPassword(pass)\<close> is the setter that \<open>user.hasOne(password)\<close> installs. It
  makes three store calls, each inside the success handler of the one before:
  \<^item> it reads the password now associated with the user (\<open>getPassword\<close>);
  \<^item> when there is one, it clears that row's foreign key and saves it;
  \<^item> it sets the foreign key of \<open>pass\<close> to the user's id and saves \<open>pass\<close>.

  Only the last save is wired to the emitter's \<open>error\<close>: when the read or the unlinking
  save fails the emitter never fires.
\<close>

definition linked_to :: "nat \<Rightarrow> password \<Rightarrow> bool" where
  "linked_to u r \<longleftrightarrow> pw_UserId r = Some u"

definition unlink :: "password \<Rightarrow> password list \<Rightarrow> password list" where
  "unlink old rows = map (\<lambda>r. if pw_id r = pw_id old then r\<lparr>pw_UserId := None\<rparr> else r) rows"

definition link_password :: "env \<Rightarrow> nat \<Rightarrow> password \<Rightarrow> password list \<Rightarrow> settled \<times> password list" where
  "link_password e u pass rows =
     (case link_error e of
        Some err \<Rightarrow> (Rejected err, rows)
      | None \<Rightarrow> (Resolved, save_password (pass\<lparr>pw_UserId := Some u\<rparr>) rows))"

definition setPassword :: "env \<Rightarrow> nat \<Rightarrow> password \<Rightarrow> password list \<Rightarrow> settled \<times> password list" where
  "setPassword e u pass rows =
     (case getPassword_error e of
        Some err \<Rightarrow> (Pending, rows)
      | None \<Rightarrow>
          (case find (linked_to u) rows of
             None \<Rightarrow> link_password e u pass rows
           | Some old \<Rightarrow>
               (case unlink_error e of
                  Some err \<Rightarrow> (Pending, rows)
                | None \<Rightarrow> link_password e u pass (unlink old rows))))"

text \<open>
  Both bcrypt callbacks receive an \<open>err\<close> that the source never reads: the salt goes to
  \<open>bcrypt.hash\<close> and the hash into \<open>pass.saltedHash\<close> whatever \<open>err\<close> is.
\<close>

definition changePassword :: "env \<Rightarrow> world \<Rightarrow> string \<Rightarrow> user \<Rightarrow> js_err option callback \<times> world" where
  "changePassword e w newPass u =
     (let pass = (case user_password u of Some p \<Rightarrow> p | None \<Rightarrow> password_build);
          salt = snd (bcrypt_genSalt e BCRYPT_ROUNDS);
          hash = snd (bcrypt_hash e newPass salt);
          pass = pass\<lparr>pw_saltedHash := hash\<rparr>
      in case update_error e of
           Some err \<Rightarrow> (Callback (Some (ErrObj ''Login Database Error'')), w)
         | None \<Rightarrow>
             (let w1 = w\<lparr>users := set_usePasswordLogin True (uid u) (users w)\<rparr>
              in case setPassword e (uid u) pass (passwords w1) of
                   (Pending, rows) \<Rightarrow> (NotCalled, w1\<lparr>passwords := rows\<rparr>)
                 | (Rejected err, rows) \<Rightarrow>
                     (Callback (Some (ErrObj ''Login Database Error'')), w1\<lparr>passwords := rows\<rparr>)
                 | (Resolved, rows) \<Rightarrow>
                     (Callback None,
                      w1\<lparr>passwords := rows,
                         hatchet := hatchet w1 @
                           [(''user-password-changed'',
                             [(''email'', JString (email u)),
                              (''username'', JString (username u))])]\<rparr>)))"

subsection \<open>removePassword and compare\<close>

text \<open>
  \<open>user.password.destroy()\<close> and \<open>user.password.saltedHash\<close> read a property of
  \<open>user.password\<close> before anything else happens. When \<open>user.password\<close> is
  \<open>undefined\<close> that read throws a TypeError, outside every promise chain: no callback
  is called.
\<close>

definition removePassword :: "env \<Rightarrow> world \<Rightarrow> user \<Rightarrow> (js_err option \<times> world) outcome" where
  "removePassword e w u =
     (case user_password u of
        None \<Rightarrow> Throws ''TypeError''
      | Some p \<Rightarrow>
          Calls
            (case destroy_error e of
               Some err \<Rightarrow> (Some (ErrObj ''Error removing password''), w)
             | None \<Rightarrow>
                 (let w1 = w\<lparr>passwords := filter (\<lambda>r. pw_id r \<noteq> pw_id p) (passwords w)\<rparr>
                  in case update_error e of
                       Some err \<Rightarrow> (Some (ErrObj ''Error removing password''), w1)
                     | None \<Rightarrow>
                         (None, w1\<lparr>users := set_usePasswordLogin False (uid u) (users w1)\<rparr>))))"

definition compare :: "env \<Rightarrow> string \<Rightarrow> user \<Rightarrow> (string option \<times> bool option) outcome" where
  "compare e pass u =
     (case user_password u of
        None \<Rightarrow> Throws ''TypeError''
      | Some p \<Rightarrow> Calls (bcrypt_compare e pass (pw_saltedHash p)))"

subsection \<open>Inputs for the worked examples\<close>

text \<open>
  An environment at time \<open>t\<close> in which no store call fails and bcrypt answers; a user
  without a loaded password; a world with empty tables.
\<close>

definition quiet_env :: "int \<Rightarrow> env" where
  "quiet_env t =
     \<lparr>now = t, find_error = None, update_error = None, save_error = None,
      destroy_error = None, getPassword_error = None, unlink_error = None, link_error = None,
      bcrypt_genSalt = (\<lambda>rounds. (None, Some ''salt'')),
      bcrypt_hash = (\<lambda>data salt. (None, Some (''hash:'' @ data))),
      bcrypt_compare = (\<lambda>data hash. (None, Some (hash = Some (''hash:'' @ data)))),
      WEBMAKERORG = ''https://webmaker.org''\<rparr>"

definition user1 :: user where
  "user1 = \<lparr>uid = 1, username = ''ada'', email = ''ada@example.org'', verified = True,
            usePasswordLogin = False, user_password = None\<rparr>"

definition empty_world :: world where
  "empty_world = \<lparr>loginTokens = [], resetCodes = [], passwords = [], users = [], hatchet = []\<rparr>"

definition codeA :: string where
  "codeA = ''9f86d081884c7d659a2feaa0c55ad015a3bf4f1b2b0b822cd15d6c15b0f00a08''"

definition codeB :: string where
  "codeB = ''2c26b46b68ffc68ff99b453c1d30413413422d706483bfa0f98a5e886266e7ae''"

text \<open>
  Three reset codes created at time 1000: an active one of user 1, a used one of user 1
  and an active one of user 2.
\<close>

definition reset_world :: world where
  "reset_world =
     empty_world\<lparr>resetCodes :=
       [resetCode_build codeA 1 1000,
        (resetCode_build codeB 1 1000)\<lparr>rc_used := True\<rparr>,
        resetCode_build codeB 2 1000]\<rparr>"

text \<open>
  User 1 with a stored password that the caller loaded; a table in which two rows are
  owned by user 1; environments in which \<open>bcrypt.hash\<close> reports an error, the store
  refuses an update, or the setter's unlinking save fails.
\<close>

definition user1_row :: user_row where
  "user1_row = \<lparr>uid = 1, username = ''ada'', email = ''ada@example.org'', verified = True,
                usePasswordLogin = False\<rparr>"

definition pw_old :: password where
  "pw_old = \<lparr>pw_id = Some 7, pw_UserId = Some 1, pw_saltedHash = Some ''hash:old''\<rparr>"

definition user1_loaded :: user where
  "user1_loaded = user1\<lparr>user_password := Some pw_old\<rparr>"

definition pw_world :: world where
  "pw_world = empty_world\<lparr>passwords := [pw_old], users := [user1_row]\<rparr>"

definition no_pw_world :: world where
  "no_pw_world = empty_world\<lparr>users := [user1_row]\<rparr>"

definition hash_fails_env :: env where
  "hash_fails_env = (quiet_env 1000)\<lparr>bcrypt_hash := (\<lambda>data salt. (Some ''bcrypt failure'', None))\<rparr>"

definition store_down_env :: env where
  "store_down_env = (quiet_env 1000)\<lparr>update_error := Some ''ECONNREFUSED''\<rparr>"

definition link_fails_env :: env where
  "link_fails_env = (quiet_env 1000)\<lparr>link_error := Some ''ECONNRESET''\<rparr>"

definition unlink_fails_env :: env where
  "unlink_fails_env = (quiet_env 1000)\<lparr>unlink_error := Some ''ECONNRESET''\<rparr>"

definition two_pw_world :: world where
  "two_pw_world =
     empty_world
       \<lparr>passwords := [pw_old, \<lparr>pw_id = Some 8, pw_UserId = Some 1, pw_saltedHash = Some ''hash:older''\<rparr>],
        users := [user1_row]\<rparr>"

section \<open>Properties\<close>

subsection \<open>Auxiliary facts\<close>

lemma findIndex_None: "findIndex P xs = None \<longleftrightarrow> (\<forall>x\<in>set xs. \<not> P x)"
  by (induction xs) auto

lemma findIndex_Some:
  "findIndex P xs = Some i \<Longrightarrow> i < length xs \<and> P (xs ! i) \<and> (\<forall>j<i. \<not> P (xs ! j))"
proof (induction xs arbitrary: i)
  case Nil
  then show ?case by simp
next
  case (Cons x xs)
  show ?case
  proof (cases "P x")
    case True
    with Cons.prems show ?thesis by simp
  next
    case False
    with Cons.prems obtain k where k: "findIndex P xs = Some k" "i = Suc k"
      by auto
    from Cons.IH [OF k(1)] False k(2) show ?thesis
      by (auto simp: less_Suc_eq_0_disj)
  qed
qed

lemma findIndex_append:
  "\<forall>x\<in>set xs. \<not> P x \<Longrightarrow>
   findIndex P (xs @ ys) = (case findIndex P ys of None \<Rightarrow> None | Some k \<Rightarrow> Some (length xs + k))"
  by (induction xs) (auto split: option.splits)

lemma format_utc_le: "format_utc t \<le> t"
  unfolding format_utc_def using div_mult_mod_eq [of t 1000] by simp

lemma format_utc_mono: "s \<le> t \<Longrightarrow> format_utc s \<le> format_utc t"
  unfolding format_utc_def by (simp add: zdiv_mono1)

text \<open>
  The window of the range query and the time to live: a row no older than the time to live
  is inside the window, and a row inside the window is less than a second older.
\<close>

lemma window_contains_ttl: "t - c \<le> ttl \<Longrightarrow> format_utc (t - ttl) \<le> c"
  using format_utc_le [of "t - ttl"] by linarith

lemma window_slack: "format_utc (t - ttl) \<le> c \<Longrightarrow> t - c < ttl + 1000"
proof -
  have "t - ttl - format_utc (t - ttl) = (t - ttl) mod 1000"
    unfolding format_utc_def using div_mult_mod_eq [of "t - ttl" 1000] by linarith
  moreover have "(t - ttl) mod 1000 < 1000"
    by simp
  ultimately show "format_utc (t - ttl) \<le> c \<Longrightarrow> t - c < ttl + 1000"
    by linarith
qed

lemma lookupToken_no_match:
  assumes "find_error e = None" and "\<forall>r\<in>set (loginTokens w). \<not> token_where (now e) (uid u) tok r"
  shows "lookupToken e w u tok = (Some (ErrObj ''unauthorized''), w)"
proof -
  from assms(2) have "findIndex (token_where (now e) (uid u) tok) (loginTokens w) = None"
    by (simp add: findIndex_None)
  with assms(1) show ?thesis
    by (simp add: lookupToken_def lookupToken_find_def lookupToken_then_def)
qed

lemma validateReset_no_match:
  assumes "find_error e = None" and "\<forall>r\<in>set (resetCodes w). \<not> reset_where (now e) (uid u) c r"
  shows "validateReset e w c u = ((None, Some False), w)"
proof -
  from assms(2) have "findIndex (reset_where (now e) (uid u) c) (resetCodes w) = None"
    by (simp add: findIndex_None)
  with assms(1) show ?thesis
    by (simp add: validateReset_def validateReset_find_def validateReset_then_def)
qed

lemma validateReset_match:
  assumes "find_error e = None" and "update_error e = None"
    and "findIndex (reset_where (now e) (uid u) c) (resetCodes w) = Some i"
  shows "validateReset e w c u =
    ((None, Some True), w\<lparr>resetCodes := (resetCodes w)[i := (resetCodes w ! i)\<lparr>rc_used := True\<rparr>]\<rparr>)"
  using assms by (simp add: validateReset_def validateReset_find_def validateReset_then_def)

text \<open>The window only moves forward: what matches later matched before.\<close>

lemma reset_where_later:
  assumes "now e \<le> now e'" and "reset_where (now e') v c r"
  shows "active_where (now e) v r"
proof -
  from assms(1) have "format_utc (now e - RESET_EXPIRY_TIME) \<le> format_utc (now e' - RESET_EXPIRY_TIME)"
    by (intro format_utc_mono) simp
  with assms(2) show ?thesis
    by (auto simp: reset_where_def active_where_def)
qed

lemma reset_where_earlier:
  assumes "now e \<le> now e'" and "reset_where (now e') v c r"
  shows "reset_where (now e) v c r"
proof -
  from assms(1) have "format_utc (now e - RESET_EXPIRY_TIME) \<le> format_utc (now e' - RESET_EXPIRY_TIME)"
    by (intro format_utc_mono) simp
  with assms(2) show ?thesis
    by (auto simp: reset_where_def)
qed

lemmas reset_eval = validateReset_def validateReset_find_def validateReset_then_def
  reset_where_def active_where_def invalidateActiveResets_def createResetCode_def
  resetCode_build_def quiet_env_def user1_def empty_world_def reset_world_def format_utc_def
  RESET_EXPIRY_TIME_def codeA_def codeB_def

text \<open>Facts about the association setter.\<close>

lemma unlink_none_linked:
  assumes "length (filter (linked_to v) rows) \<le> 1" and "find (linked_to v) rows = Some old"
  shows "filter (linked_to v) (unlink old rows) = []"
proof -
  from assms(2) have old: "old \<in> set rows" "linked_to v old"
    by (auto simp: find_Some_iff)
  then have "old \<in> set (filter (linked_to v) rows)" by simp
  moreover from assms(1) this obtain x where x: "filter (linked_to v) rows = [x]"
    by (cases "filter (linked_to v) rows") (auto simp: length_Suc_conv)
  ultimately have "filter (linked_to v) rows = [old]" by simp
  then have "set (filter (linked_to v) rows) = {old}" by simp
  then have only: "\<forall>r\<in>set rows. linked_to v r \<longrightarrow> r = old"
    by auto
  show ?thesis
    using only by (auto simp: unlink_def filter_empty_conv linked_to_def)
qed

lemma find_none_linked:
  assumes "find (linked_to v) rows = None"
  shows "filter (linked_to v) rows = []"
proof -
  from assms have "\<forall>r\<in>set rows. \<not> linked_to v r"
    by (simp add: find_None_iff)
  then show ?thesis
    by (simp add: filter_empty_conv)
qed

lemma unlink_ids: "map pw_id (unlink old rows) = map pw_id rows"
  by (simp add: unlink_def comp_def if_distrib [of pw_id] cong: if_cong)

lemma key_count:
  "length (filter (\<lambda>r. pw_id r = k) rows) = length (filter (\<lambda>y. y = k) (map pw_id rows))"
  by (simp add: filter_map comp_def)

lemma save_existing:
  assumes none: "filter (linked_to v) rows = []"
    and lp: "linked_to v p" and pid: "pw_id p = Some i"
    and key: "length (filter (\<lambda>r. pw_id r = Some i) rows) = 1"
  shows "filter (linked_to v) (save_password p rows) = [p] \<and>
         length (save_password p rows) = length rows"
proof -
  let ?f = "\<lambda>r. if pw_id r = Some i then p else r"
  have nl: "\<forall>r\<in>set rows. \<not> linked_to v r"
    using none by (simp add: filter_empty_conv)
  have "filter (linked_to v) (map ?f rows) = map ?f (filter (\<lambda>r. pw_id r = Some i) rows)"
    unfolding filter_map using nl lp by (intro arg_cong [where f = "map ?f"] filter_cong) auto
  also have "\<dots> = map (\<lambda>r. p) (filter (\<lambda>r. pw_id r = Some i) rows)"
    by (intro map_cong) auto
  also have "\<dots> = replicate (length (filter (\<lambda>r. pw_id r = Some i) rows)) p"
    by (simp add: map_replicate_const)
  also have "\<dots> = [p]"
    by (simp add: key)
  finally show ?thesis
    by (simp add: save_password_def pid)
qed

lemma save_new:
  assumes none: "filter (linked_to v) rows = []"
    and lp: "linked_to v p" and pid: "pw_id p = None"
  shows "filter (linked_to v) (save_password p rows) = [p\<lparr>pw_id := Some (fresh_id rows)\<rparr>] \<and>
         length (save_password p rows) = Suc (length rows)"
  using assms by (simp add: save_password_def linked_to_def)

text \<open>
  When its three store calls succeed the setter resolves, and a table with at most one row
  of the user ends with exactly one, the saved instance.
\<close>

lemma setPassword_one:
  assumes io: "getPassword_error e = None" "unlink_error e = None" "link_error e = None"
    and one: "length (filter (linked_to v) rows) \<le> 1"
    and key: "\<forall>i. pw_id pass = Some i \<longrightarrow> length (filter (\<lambda>r. pw_id r = Some i) rows) = 1"
  shows "\<exists>p' rows'. setPassword e v pass rows = (Resolved, rows') \<and>
           filter (linked_to v) rows' = [p'] \<and>
           pw_saltedHash p' = pw_saltedHash pass \<and>
           (case pw_id pass of
              Some i \<Rightarrow> pw_id p' = Some i \<and> length rows' = length rows
            | None \<Rightarrow> length rows' = Suc (length rows))"
proof -
  define rows1 where "rows1 =
    (case find (linked_to v) rows of None \<Rightarrow> rows | Some old \<Rightarrow> unlink old rows)"
  let ?p = "pass\<lparr>pw_UserId := Some v\<rparr>"
  have sp: "setPassword e v pass rows = (Resolved, save_password ?p rows1)"
    using io by (simp add: setPassword_def link_password_def rows1_def split: option.splits)
  have none: "filter (linked_to v) rows1 = []"
    unfolding rows1_def
    by (cases "find (linked_to v) rows")
      (simp_all add: find_none_linked unlink_none_linked [OF one])
  have ids: "map pw_id rows1 = map pw_id rows"
    unfolding rows1_def by (cases "find (linked_to v) rows") (simp_all add: unlink_ids)
  have len: "length rows1 = length rows"
    using ids by (metis length_map)
  have lp: "linked_to v ?p"
    by (simp add: linked_to_def)
  show ?thesis
  proof (cases "pw_id pass")
    case None
    with save_new [OF none lp] len show ?thesis
      by (simp add: sp)
  next
    case (Some i)
    with key have "length (filter (\<lambda>r. pw_id r = Some i) rows1) = 1"
      by (simp add: key_count ids)
    with save_existing [OF none lp, of i] Some len show ?thesis
      by (simp add: sp)
  qed
qed

lemmas pw_eval = changePassword_def setPassword_def link_password_def unlink_def
  save_password_def fresh_id_def linked_to_def
  set_usePasswordLogin_def password_build_def removePassword_def compare_def quiet_env_def
  user1_def user1_row_def user1_loaded_def pw_old_def pw_world_def no_pw_world_def
  empty_world_def hash_fails_env_def store_down_env_def link_fails_env_def
  unlink_fails_env_def two_pw_world_def BCRYPT_ROUNDS_def

subsection \<open>Login tokens\<close>

text \<open>
  C1, as the code has it. When the store answers, \<open>lookupToken\<close> succeeds if and only if a
  stored login token matches the user and the token string, is unused, and was created no
  earlier than the instant \<open>now - 30 minutes\<close> cut down to its whole second (the bound is
  printed with a resolution of one second). In that case the first such row, and no other,
  gets \<open>used = true\<close> and the callback receives no error. Otherwise nothing changes and the
  callback receives \<open>{error: "unauthorized"}\<close>, the same for a wrong, an expired and a
  used token.
\<close>

theorem lookupToken_verifies:
  assumes "find_error e = None" and "update_error e = None"
  shows "(let valid = (\<lambda>r. lt_UserId r = uid u \<and> lt_token r = tok \<and> \<not> lt_used r \<and>
                          format_utc (now e - TOKEN_EXPIRY_TIME) \<le> lt_createdAt r);
              rows = loginTokens w
          in if \<exists>r\<in>set rows. valid r
             then \<exists>i<length rows. valid (rows ! i) \<and> (\<forall>j<i. \<not> valid (rows ! j)) \<and>
                    lookupToken e w u tok =
                      (None, w\<lparr>loginTokens := rows[i := (rows ! i)\<lparr>lt_used := True\<rparr>]\<rparr>)
             else lookupToken e w u tok = (Some (ErrObj ''unauthorized''), w))"
proof -
  let ?P = "token_where (now e) (uid u) tok"
  show ?thesis
  proof (cases "findIndex ?P (loginTokens w)")
    case None
    then have "\<forall>r\<in>set (loginTokens w). \<not> ?P r"
      by (simp add: findIndex_None)
    with None assms show ?thesis
      by (simp add: lookupToken_def lookupToken_find_def lookupToken_then_def token_where_def)
  next
    case (Some i)
    from findIndex_Some [OF Some]
    have i: "i < length (loginTokens w)" "?P (loginTokens w ! i)"
      "\<forall>j<i. \<not> ?P (loginTokens w ! j)"
      by simp_all
    then have ex: "\<exists>r\<in>set (loginTokens w). ?P r"
      using nth_mem by blast
    have "lookupToken e w u tok =
        (None, w\<lparr>loginTokens := (loginTokens w)[i := (loginTokens w ! i)\<lparr>lt_used := True\<rparr>]\<rparr>)"
      using Some assms by (simp add: lookupToken_def lookupToken_find_def lookupToken_then_def)
    with i ex show ?thesis
      unfolding Let_def token_where_def by auto
  qed
qed

theorem lookupToken_verifies_witness:
  "find_error (quiet_env 2000) = None \<and> update_error (quiet_env 2000) = None \<and>
   lookupToken (quiet_env 2000)
     (empty_world\<lparr>loginTokens := [loginToken_build ''lusab-babad'' 1 1000]\<rparr>) user1 ''lusab-babad''
   = (None, empty_world\<lparr>loginTokens := [(loginToken_build ''lusab-babad'' 1 1000)\<lparr>lt_used := True\<rparr>]\<rparr>) \<and>
   lookupToken (quiet_env 2000)
     (empty_world\<lparr>loginTokens := [loginToken_build ''lusab-babad'' 1 1000]\<rparr>) user1 ''lusab-babab''
   = (Some (ErrObj ''unauthorized''),
      empty_world\<lparr>loginTokens := [loginToken_build ''lusab-babad'' 1 1000]\<rparr>)"
proof -
  have f: "find_error (quiet_env 2000) = None" and g: "update_error (quiet_env 2000) = None"
    by (simp_all add: quiet_env_def)
  show ?thesis
    using
      lookupToken_verifies [OF f g, of user1 "''lusab-babad''"
        "empty_world\<lparr>loginTokens := [loginToken_build ''lusab-babad'' 1 1000]\<rparr>"]
      lookupToken_verifies [OF f g, of user1 "''lusab-babab''"
        "empty_world\<lparr>loginTokens := [loginToken_build ''lusab-babad'' 1 1000]\<rparr>"]
    by (simp add: quiet_env_def user1_def empty_world_def loginToken_build_def format_utc_def
        TOKEN_EXPIRY_TIME_def)
qed

text \<open>
  The claim as written puts the bound at \<open>now - 30 minutes\<close> itself. A token created at
  time 0 is 30 minutes and 999 milliseconds old at time 1800999, and \<open>lookupToken\<close> still
  accepts it.
\<close>

theorem lookupToken_window_counterexample:
  "lt_createdAt (loginToken_build ''lusab-babad'' 1 0) = 0 \<and>
   \<not> (now (quiet_env 1800999) - 0 \<le> TOKEN_EXPIRY_TIME) \<and>
   fst (lookupToken (quiet_env 1800999)
     (empty_world\<lparr>loginTokens := [loginToken_build ''lusab-babad'' 1 0]\<rparr>) user1 ''lusab-babad'') = None"
  by (simp add: lookupToken_def lookupToken_find_def lookupToken_then_def token_where_def
      quiet_env_def user1_def empty_world_def loginToken_build_def format_utc_def
      TOKEN_EXPIRY_TIME_def)

text \<open>
  C2, as the code has it. Take a login token issued by \<open>createToken\<close> for a user who holds
  no other unused login token with the same token string. A first \<open>lookupToken\<close> with that
  user and token, no later than 30 minutes after the issue, succeeds and leaves the issued
  row used; a second one, at any time, changes nothing and fails with
  \<open>{error: "unauthorized"}\<close>.
\<close>

theorem token_single_use:
  assumes io: "save_error e0 = None" "find_error e1 = None" "update_error e1 = None"
      "find_error e2 = None"
    and fresh: "\<forall>r\<in>set (loginTokens w). \<not> (lt_UserId r = uid u \<and> lt_token r = tok \<and> \<not> lt_used r)"
    and win: "now e1 - now e0 \<le> TOKEN_EXPIRY_TIME"
  shows "(let (r0, w0) = createToken e0 w u appURL tok;
              (r1, w1) = lookupToken e1 w0 u tok;
              (r2, w2) = lookupToken e2 w1 u tok
          in r0 = None \<and> r1 = None \<and> r2 = Some (ErrObj ''unauthorized'') \<and> w2 = w1 \<and>
             loginTokens w1 =
               loginTokens w @ [(loginToken_build tok (uid u) (now e0))\<lparr>lt_used := True\<rparr>])"
proof -
  let ?new = "loginToken_build tok (uid u) (now e0)"
  let ?rows = "loginTokens w"
  obtain w0 where c: "createToken e0 w u appURL tok = (None, w0)"
    and w0: "loginTokens w0 = ?rows @ [?new]"
    using io(1) by (simp add: createToken_def)
  have old1: "\<forall>r\<in>set ?rows. \<not> token_where (now e1) (uid u) tok r"
    using fresh by (auto simp: token_where_def)
  have "format_utc (now e1 - TOKEN_EXPIRY_TIME) \<le> now e0"
    using format_utc_le [of "now e1 - TOKEN_EXPIRY_TIME"] win by linarith
  then have new1: "token_where (now e1) (uid u) tok ?new"
    by (simp add: token_where_def loginToken_build_def)
  have idx: "findIndex (token_where (now e1) (uid u) tok) (loginTokens w0) = Some (length ?rows)"
    unfolding w0 using new1 by (simp add: findIndex_append [OF old1])
  define w1 where "w1 = w0\<lparr>loginTokens := ?rows @ [?new\<lparr>lt_used := True\<rparr>]\<rparr>"
  have l1: "lookupToken e1 w0 u tok = (None, w1)"
    using io(2,3) idx
    by (simp add: lookupToken_def lookupToken_find_def lookupToken_then_def w0 w1_def)
  have "\<forall>r\<in>set (loginTokens w1). \<not> token_where (now e2) (uid u) tok r"
    using fresh by (auto simp: w1_def token_where_def)
  then have "findIndex (token_where (now e2) (uid u) tok) (loginTokens w1) = None"
    by (simp add: findIndex_None)
  then have l2: "lookupToken e2 w1 u tok = (Some (ErrObj ''unauthorized''), w1)"
    using io(4) by (simp add: lookupToken_def lookupToken_find_def lookupToken_then_def)
  show ?thesis
    by (simp add: c l1 l2) (simp add: w1_def)
qed

theorem token_single_use_witness:
  "save_error (quiet_env 1000) = None \<and> find_error (quiet_env 2000) = None \<and>
   update_error (quiet_env 2000) = None \<and> find_error (quiet_env 3000) = None \<and>
   loginTokens empty_world = [] \<and>
   now (quiet_env 2000) - now (quiet_env 1000) \<le> TOKEN_EXPIRY_TIME \<and>
   fst (lookupToken (quiet_env 2000)
         (snd (createToken (quiet_env 1000) empty_world user1 ''https://app'' ''lusab-babad''))
         user1 ''lusab-babad'') = None \<and>
   fst (lookupToken (quiet_env 3000)
         (snd (lookupToken (quiet_env 2000)
           (snd (createToken (quiet_env 1000) empty_world user1 ''https://app'' ''lusab-babad''))
           user1 ''lusab-babad''))
         user1 ''lusab-babad'') = Some (ErrObj ''unauthorized'')"
proof -
  have io: "save_error (quiet_env 1000) = None" "find_error (quiet_env 2000) = None"
    "update_error (quiet_env 2000) = None" "find_error (quiet_env 3000) = None"
    by (simp_all add: quiet_env_def)
  have fresh: "\<forall>r\<in>set (loginTokens empty_world).
      \<not> (lt_UserId r = uid user1 \<and> lt_token r = ''lusab-babad'' \<and> \<not> lt_used r)"
    by (simp add: empty_world_def)
  have win: "now (quiet_env 2000) - now (quiet_env 1000) \<le> TOKEN_EXPIRY_TIME"
    by (simp add: quiet_env_def TOKEN_EXPIRY_TIME_def)
  have "loginTokens empty_world = []"
    by (simp add: empty_world_def)
  with token_single_use [OF io fresh win, of "''https://app''"] io win
  show ?thesis
    by (simp add: split_beta Let_def)
qed

text \<open>
  The claim as written holds for every issued token. When the user already holds an unused
  row with the same token string (the four random bytes came out the same), the first
  verification consumes the older row and the second one succeeds as well.
\<close>

theorem token_single_use_counterexample:
  "fst (lookupToken (quiet_env 2000)
         (snd (createToken (quiet_env 1000)
                (empty_world\<lparr>loginTokens := [loginToken_build ''lusab-babad'' 1 0]\<rparr>)
                user1 ''https://app'' ''lusab-babad''))
         user1 ''lusab-babad'') = None \<and>
   fst (lookupToken (quiet_env 3000)
         (snd (lookupToken (quiet_env 2000)
           (snd (createToken (quiet_env 1000)
                  (empty_world\<lparr>loginTokens := [loginToken_build ''lusab-babad'' 1 0]\<rparr>)
                  user1 ''https://app'' ''lusab-babad''))
           user1 ''lusab-babad''))
         user1 ''lusab-babad'') = None"
  by (simp add: lookupToken_def lookupToken_find_def lookupToken_then_def token_where_def
      createToken_def quiet_env_def user1_def empty_world_def loginToken_build_def
      format_utc_def TOKEN_EXPIRY_TIME_def)

subsection \<open>Reset codes\<close>

text \<open>
  C3, as the code has it. When the store answers, \<open>invalidateActiveResets\<close> sets
  \<open>invalid = true\<close> on exactly the user's rows that are unused, not yet invalid and created
  no earlier than the instant \<open>now - 24 hours\<close> cut down to its whole second; it hands the
  number of these rows to the callback and leaves every other row and every other table as
  it was. Afterwards \<open>validateReset\<close> answers \<open>false\<close> for this user whatever the code, at
  any time from the invalidation on.
\<close>

theorem invalidateActiveResets_marks:
  assumes "update_error e = None"
  shows "(let active = (\<lambda>r. rc_UserId r = uid u \<and> \<not> rc_used r \<and> \<not> rc_invalid r \<and>
                           format_utc (now e - RESET_EXPIRY_TIME) \<le> rc_createdAt r);
              rows = resetCodes w;
              (res, w') = invalidateActiveResets e w u
          in res = (None, Some (length (filter active rows))) \<and>
             w' = w\<lparr>resetCodes := resetCodes w'\<rparr> \<and>
             length (resetCodes w') = length rows \<and>
             (\<forall>i<length rows.
                resetCodes w' ! i =
                  (if active (rows ! i) then (rows ! i)\<lparr>rc_invalid := True\<rparr> else rows ! i)) \<and>
             (\<forall>e' c. find_error e' = None \<and> now e \<le> now e' \<longrightarrow>
                validateReset e' w' c u = ((None, Some False), w')))"
proof -
  let ?A = "active_where (now e) (uid u)"
  define w' where "w' = w\<lparr>resetCodes := map (\<lambda>r. if ?A r then r\<lparr>rc_invalid := True\<rparr> else r) (resetCodes w)\<rparr>"
  have run: "invalidateActiveResets e w u = ((None, Some (length (filter ?A (resetCodes w)))), w')"
    using assms by (simp add: invalidateActiveResets_def w'_def)
  have none_active: "\<forall>r\<in>set (resetCodes w'). \<not> ?A r"
    by (auto simp: w'_def active_where_def)
  have after: "validateReset e' w' c u = ((None, Some False), w')"
    if "find_error e' = None" "now e \<le> now e'" for e' c
  proof (rule validateReset_no_match [OF that(1)])
    show "\<forall>r\<in>set (resetCodes w'). \<not> reset_where (now e') (uid u) c r"
      using none_active reset_where_later [OF that(2)] by blast
  qed
  have A: "?A = (\<lambda>r. rc_UserId r = uid u \<and> \<not> rc_used r \<and> \<not> rc_invalid r \<and>
                           format_utc (now e - RESET_EXPIRY_TIME) \<le> rc_createdAt r)"
    by (simp add: active_where_def fun_eq_iff)
  have shape: "w' = w\<lparr>resetCodes := resetCodes w'\<rparr>"
    by (simp add: w'_def)
  have len: "length (resetCodes w') = length (resetCodes w)"
    by (simp add: w'_def)
  have rows: "\<forall>i<length (resetCodes w).
      resetCodes w' ! i =
        (if ?A (resetCodes w ! i) then (resetCodes w ! i)\<lparr>rc_invalid := True\<rparr> else resetCodes w ! i)"
    by (simp add: w'_def)
  show ?thesis
    unfolding Let_def run prod.case A [symmetric]
    using shape len rows after by blast
qed

theorem invalidateActiveResets_marks_witness:
  "update_error (quiet_env 2000) = None \<and>
   invalidateActiveResets (quiet_env 2000) reset_world user1 =
     ((None, Some 1),
      empty_world\<lparr>resetCodes :=
        [(resetCode_build codeA 1 1000)\<lparr>rc_invalid := True\<rparr>,
         (resetCode_build codeB 1 1000)\<lparr>rc_used := True\<rparr>,
         resetCode_build codeB 2 1000]\<rparr>) \<and>
   find_error (quiet_env 3000) = None \<and> now (quiet_env 2000) \<le> now (quiet_env 3000) \<and>
   fst (validateReset (quiet_env 3000)
         (snd (invalidateActiveResets (quiet_env 2000) reset_world user1)) codeA user1)
     = (None, Some False)"
proof -
  have u: "update_error (quiet_env 2000) = None"
    and f: "find_error (quiet_env 3000) = None \<and> now (quiet_env 2000) \<le> now (quiet_env 3000)"
    by (simp_all add: quiet_env_def)
  have run: "invalidateActiveResets (quiet_env 2000) reset_world user1 =
     ((None, Some 1),
      empty_world\<lparr>resetCodes :=
        [(resetCode_build codeA 1 1000)\<lparr>rc_invalid := True\<rparr>,
         (resetCode_build codeB 1 1000)\<lparr>rc_used := True\<rparr>,
         resetCode_build codeB 2 1000]\<rparr>)"
    by (simp add: reset_eval)
  from invalidateActiveResets_marks [OF u, of user1 reset_world]
  have "\<forall>e' c. find_error e' = None \<and> now (quiet_env 2000) \<le> now e' \<longrightarrow>
      validateReset e' (snd (invalidateActiveResets (quiet_env 2000) reset_world user1)) c user1 =
        ((None, Some False), snd (invalidateActiveResets (quiet_env 2000) reset_world user1))"
    by (simp add: Let_def split_beta)
  with f have "fst (validateReset (quiet_env 3000)
         (snd (invalidateActiveResets (quiet_env 2000) reset_world user1)) codeA user1)
     = (None, Some False)"
    by simp
  with u f run show ?thesis
    by simp
qed

text \<open>
  The claim as written counts the rows inside the 24 hours. A code created at time 0 is 24
  hours and 999 milliseconds old at time 86400999, outside that window, and the call still
  marks it and reports one row.
\<close>

theorem invalidateActiveResets_window_counterexample:
  "rc_createdAt (resetCode_build codeA 1 0) = 0 \<and>
   \<not> (now (quiet_env 86400999) - 0 \<le> RESET_EXPIRY_TIME) \<and>
   invalidateActiveResets (quiet_env 86400999)
     (empty_world\<lparr>resetCodes := [resetCode_build codeA 1 0]\<rparr>) user1 =
     ((None, Some 1),
      empty_world\<lparr>resetCodes := [(resetCode_build codeA 1 0)\<lparr>rc_invalid := True\<rparr>]\<rparr>)"
  by (simp add: reset_eval)

text \<open>
  C4, as the code has it. When the store answers, \<open>validateReset\<close> calls back
  \<open>(null, false)\<close>, and changes nothing, when no row matches the code and the user while
  unused, not invalid and created no earlier than the instant \<open>now - 24 hours\<close> cut down to
  its whole second. When such a row exists, the first one gets \<open>used = true\<close> and the
  callback receives \<open>(null, true)\<close>; if it was the only such row, a repeated call at the
  same or a later time answers \<open>false\<close>. \<open>lookupToken\<close> in the same situation (no
  matching row) calls back with the error \<open>{error: "unauthorized"}\<close> instead.
\<close>

theorem validateReset_consumes:
  assumes "find_error e = None" and "update_error e = None"
  shows "(let valid = (\<lambda>r. rc_code r = c \<and> rc_UserId r = uid u \<and> \<not> rc_used r \<and> \<not> rc_invalid r \<and>
                          format_utc (now e - RESET_EXPIRY_TIME) \<le> rc_createdAt r);
              rows = resetCodes w
          in (if \<exists>r\<in>set rows. valid r
              then \<exists>i<length rows. valid (rows ! i) \<and> (\<forall>j<i. \<not> valid (rows ! j)) \<and>
                     validateReset e w c u =
                       ((None, Some True), w\<lparr>resetCodes := rows[i := (rows ! i)\<lparr>rc_used := True\<rparr>]\<rparr>) \<and>
                     ((\<forall>j<length rows. valid (rows ! j) \<longrightarrow> j = i) \<longrightarrow>
                      (\<forall>e'. find_error e' = None \<and> now e \<le> now e' \<longrightarrow>
                         validateReset e' (snd (validateReset e w c u)) c u =
                           ((None, Some False), snd (validateReset e w c u))))
              else validateReset e w c u = ((None, Some False), w)) \<and>
             ((\<forall>r\<in>set (loginTokens w).
                 \<not> (lt_UserId r = uid u \<and> lt_token r = tok \<and> \<not> lt_used r \<and>
                    format_utc (now e - TOKEN_EXPIRY_TIME) \<le> lt_createdAt r)) \<longrightarrow>
              lookupToken e w u tok = (Some (ErrObj ''unauthorized''), w)))"
proof -
  let ?P = "reset_where (now e) (uid u) c"
  let ?rows = "resetCodes w"
  have P: "?P = (\<lambda>r. rc_code r = c \<and> rc_UserId r = uid u \<and> \<not> rc_used r \<and> \<not> rc_invalid r \<and>
                          format_utc (now e - RESET_EXPIRY_TIME) \<le> rc_createdAt r)"
    by (simp add: reset_where_def fun_eq_iff)
  have tokens: "lookupToken e w u tok = (Some (ErrObj ''unauthorized''), w)"
    if "\<forall>r\<in>set (loginTokens w).
          \<not> (lt_UserId r = uid u \<and> lt_token r = tok \<and> \<not> lt_used r \<and>
             format_utc (now e - TOKEN_EXPIRY_TIME) \<le> lt_createdAt r)"
    using that by (intro lookupToken_no_match [OF assms(1)]) (simp add: token_where_def)
  have codes: "if \<exists>r\<in>set ?rows. ?P r
      then \<exists>i<length ?rows. ?P (?rows ! i) \<and> (\<forall>j<i. \<not> ?P (?rows ! j)) \<and>
             validateReset e w c u =
               ((None, Some True), w\<lparr>resetCodes := ?rows[i := (?rows ! i)\<lparr>rc_used := True\<rparr>]\<rparr>) \<and>
             ((\<forall>j<length ?rows. ?P (?rows ! j) \<longrightarrow> j = i) \<longrightarrow>
              (\<forall>e'. find_error e' = None \<and> now e \<le> now e' \<longrightarrow>
                 validateReset e' (snd (validateReset e w c u)) c u =
                   ((None, Some False), snd (validateReset e w c u))))
      else validateReset e w c u = ((None, Some False), w)"
  proof (cases "findIndex ?P ?rows")
    case None
    then have no: "\<forall>r\<in>set ?rows. \<not> ?P r"
      by (simp add: findIndex_None)
    with validateReset_no_match [OF assms(1) no] show ?thesis
      by simp
  next
    case (Some i)
    from findIndex_Some [OF Some]
    have i: "i < length ?rows" "?P (?rows ! i)" "\<forall>j<i. \<not> ?P (?rows ! j)"
      by simp_all
    then have ex: "\<exists>r\<in>set ?rows. ?P r"
      using nth_mem by blast
    define w' where "w' = w\<lparr>resetCodes := ?rows[i := (?rows ! i)\<lparr>rc_used := True\<rparr>]\<rparr>"
    have run: "validateReset e w c u = ((None, Some True), w')"
      unfolding w'_def by (rule validateReset_match [OF assms Some])
    have again: "validateReset e' w' c u = ((None, Some False), w')"
      if uniq: "\<forall>j<length ?rows. ?P (?rows ! j) \<longrightarrow> j = i"
        and e': "find_error e' = None" "now e \<le> now e'" for e'
    proof (rule validateReset_no_match [OF e'(1)])
      show "\<forall>r\<in>set (resetCodes w'). \<not> reset_where (now e') (uid u) c r"
      proof
        fix r assume "r \<in> set (resetCodes w')"
        then obtain j where j: "j < length ?rows" "r = (resetCodes w') ! j"
          by (auto simp: in_set_conv_nth w'_def)
        show "\<not> reset_where (now e') (uid u) c r"
        proof (cases "j = i")
          case True
          with j i(1) have "rc_used r" by (simp add: w'_def)
          then show ?thesis by (simp add: reset_where_def)
        next
          case False
          with j have r: "r = ?rows ! j" by (simp add: w'_def)
          from False uniq j(1) have "\<not> ?P (?rows ! j)" by blast
          with r reset_where_earlier [OF e'(2)] show ?thesis by blast
        qed
      qed
    qed
    have rep: "(\<forall>j<length ?rows. ?P (?rows ! j) \<longrightarrow> j = i) \<longrightarrow>
              (\<forall>e'. find_error e' = None \<and> now e \<le> now e' \<longrightarrow>
                 validateReset e' (snd (validateReset e w c u)) c u =
                   ((None, Some False), snd (validateReset e w c u)))"
      unfolding run snd_conv using again by blast
    have "i < length ?rows \<and> (?P (?rows ! i) \<and> (\<forall>j<i. \<not> ?P (?rows ! j)) \<and>
             validateReset e w c u =
               ((None, Some True), w\<lparr>resetCodes := ?rows[i := (?rows ! i)\<lparr>rc_used := True\<rparr>]\<rparr>) \<and>
             ((\<forall>j<length ?rows. ?P (?rows ! j) \<longrightarrow> j = i) \<longrightarrow>
              (\<forall>e'. find_error e' = None \<and> now e \<le> now e' \<longrightarrow>
                 validateReset e' (snd (validateReset e w c u)) c u =
                   ((None, Some False), snd (validateReset e w c u)))))"
      using i rep run [unfolded w'_def] by (intro conjI)
    then have "\<exists>i<length ?rows. ?P (?rows ! i) \<and> (\<forall>j<i. \<not> ?P (?rows ! j)) \<and>
             validateReset e w c u =
               ((None, Some True), w\<lparr>resetCodes := ?rows[i := (?rows ! i)\<lparr>rc_used := True\<rparr>]\<rparr>) \<and>
             ((\<forall>j<length ?rows. ?P (?rows ! j) \<longrightarrow> j = i) \<longrightarrow>
              (\<forall>e'. find_error e' = None \<and> now e \<le> now e' \<longrightarrow>
                 validateReset e' (snd (validateReset e w c u)) c u =
                   ((None, Some False), snd (validateReset e w c u))))"
      by (rule exI [of _ i])
    with ex show ?thesis
      by (simp only: if_True)
  qed
  show ?thesis
    unfolding Let_def P [symmetric]
    by (intro conjI impI) (rule codes, rule tokens, assumption)
qed

theorem validateReset_consumes_witness:
  "find_error (quiet_env 2000) = None \<and> update_error (quiet_env 2000) = None \<and>
   find_error (quiet_env 3000) = None \<and> now (quiet_env 2000) \<le> now (quiet_env 3000) \<and>
   validateReset (quiet_env 2000) reset_world codeA user1 =
     ((None, Some True),
      empty_world\<lparr>resetCodes :=
        [(resetCode_build codeA 1 1000)\<lparr>rc_used := True\<rparr>,
         (resetCode_build codeB 1 1000)\<lparr>rc_used := True\<rparr>,
         resetCode_build codeB 2 1000]\<rparr>) \<and>
   fst (validateReset (quiet_env 3000)
         (snd (validateReset (quiet_env 2000) reset_world codeA user1)) codeA user1)
     = (None, Some False) \<and>
   validateReset (quiet_env 2000) reset_world codeB user1 = ((None, Some False), reset_world) \<and>
   lookupToken (quiet_env 2000) reset_world user1 ''lusab-babad''
     = (Some (ErrObj ''unauthorized''), reset_world)"
proof -
  have f: "find_error (quiet_env 2000) = None" and g: "update_error (quiet_env 2000) = None"
    by (simp_all add: quiet_env_def)
  show ?thesis
    using validateReset_consumes [OF f g, of codeA user1 reset_world "''lusab-babad''"]
      validateReset_consumes [OF f g, of codeB user1 reset_world "''lusab-babad''"]
    by (simp add: reset_eval lookupToken_def lookupToken_find_def lookupToken_then_def)
qed

text \<open>
  The claim as written fails in two places. A code created at time 0 is outside the 24
  hours at time 86400999 and is still accepted. And when two unused rows of the user carry
  the same code, the repeated validation finds the second row and answers \<open>true\<close> again.
\<close>

theorem validateReset_counterexample:
  "rc_createdAt (resetCode_build codeA 1 0) = 0 \<and>
   \<not> (now (quiet_env 86400999) - 0 \<le> RESET_EXPIRY_TIME) \<and>
   fst (validateReset (quiet_env 86400999)
         (empty_world\<lparr>resetCodes := [resetCode_build codeA 1 0]\<rparr>) codeA user1)
     = (None, Some True) \<and>
   fst (validateReset (quiet_env 2000)
         (empty_world\<lparr>resetCodes := [resetCode_build codeA 1 1000, resetCode_build codeA 1 1500]\<rparr>)
         codeA user1)
     = (None, Some True) \<and>
   fst (validateReset (quiet_env 3000)
         (snd (validateReset (quiet_env 2000)
           (empty_world\<lparr>resetCodes := [resetCode_build codeA 1 1000, resetCode_build codeA 1 1500]\<rparr>)
           codeA user1))
         codeA user1)
     = (None, Some True)"
  by (simp add: reset_eval)

text \<open>
  C5, as the code has it. \<open>createResetCode\<close> saves the new row and touches no other; the
  older codes are invalidated by \<open>invalidateActiveResets\<close>, a call of its own. After
  issuing C1, invalidating the user's active codes and issuing a different code C2,
  \<open>validateReset\<close> answers \<open>false\<close> for C1 at any time from the invalidation on, and
  \<open>true\<close> for C2 within 24 hours of its issue.
\<close>

theorem reissue_after_invalidation:
  assumes io: "save_error e1 = None" "update_error e2 = None" "save_error e3 = None"
      "find_error e4 = None" "find_error e5 = None" "update_error e5 = None"
    and diff: "c1 \<noteq> c2"
    and later: "now e2 \<le> now e4"
    and win: "now e5 - now e3 \<le> RESET_EXPIRY_TIME"
  shows "(let w1 = snd (createResetCode e1 w u c1);
              w2 = snd (invalidateActiveResets e2 w1 u);
              w3 = snd (createResetCode e3 w2 u c2)
          in validateReset e4 w3 c1 u = ((None, Some False), w3) \<and>
             fst (validateReset e5 w3 c2 u) = (None, Some True))"
proof -
  define w1 where "w1 = snd (createResetCode e1 w u c1)"
  define w2 where "w2 = snd (invalidateActiveResets e2 w1 u)"
  define w3 where "w3 = snd (createResetCode e3 w2 u c2)"
  let ?new = "resetCode_build c2 (uid u) (now e3)"
  have rows2: "\<forall>r\<in>set (resetCodes w2). \<not> active_where (now e2) (uid u) r"
    using io(2) by (auto simp: w2_def invalidateActiveResets_def active_where_def)
  have rows3: "resetCodes w3 = resetCodes w2 @ [?new]"
    using io(3) by (simp add: w3_def createResetCode_def)
  have "\<forall>r\<in>set (resetCodes w3). \<not> reset_where (now e4) (uid u) c1 r"
  proof
    fix r assume "r \<in> set (resetCodes w3)"
    then consider "r \<in> set (resetCodes w2)" | "r = ?new"
      by (auto simp: rows3)
    then show "\<not> reset_where (now e4) (uid u) c1 r"
    proof cases
      case 1
      with rows2 reset_where_later [OF later] show ?thesis by blast
    next
      case 2
      with diff show ?thesis by (simp add: reset_where_def resetCode_build_def)
    qed
  qed
  then have old: "validateReset e4 w3 c1 u = ((None, Some False), w3)"
    by (rule validateReset_no_match [OF io(4)])
  have "format_utc (now e5 - RESET_EXPIRY_TIME) \<le> now e3"
    using format_utc_le [of "now e5 - RESET_EXPIRY_TIME"] win by linarith
  then have "reset_where (now e5) (uid u) c2 ?new"
    by (simp add: reset_where_def resetCode_build_def)
  then have "\<not> (\<forall>r\<in>set (resetCodes w3). \<not> reset_where (now e5) (uid u) c2 r)"
    by (simp add: rows3)
  then obtain i where "findIndex (reset_where (now e5) (uid u) c2) (resetCodes w3) = Some i"
    by (auto simp: findIndex_None [symmetric])
  from validateReset_match [OF io(5,6) this]
  have new: "fst (validateReset e5 w3 c2 u) = (None, Some True)"
    by simp
  from old new show ?thesis
    by (simp add: w1_def w2_def w3_def Let_def)
qed

theorem reissue_after_invalidation_witness:
  "save_error (quiet_env 0) = None \<and> update_error (quiet_env 3600000) = None \<and>
   save_error (quiet_env 3600000) = None \<and> find_error (quiet_env 3700000) = None \<and>
   find_error (quiet_env 3800000) = None \<and> update_error (quiet_env 3800000) = None \<and>
   codeA \<noteq> codeB \<and> now (quiet_env 3600000) \<le> now (quiet_env 3700000) \<and>
   now (quiet_env 3800000) - now (quiet_env 3600000) \<le> RESET_EXPIRY_TIME \<and>
   fst (validateReset (quiet_env 3700000)
         (snd (createResetCode (quiet_env 3600000)
           (snd (invalidateActiveResets (quiet_env 3600000)
             (snd (createResetCode (quiet_env 0) empty_world user1 codeA)) user1))
           user1 codeB))
         codeA user1) = (None, Some False) \<and>
   fst (validateReset (quiet_env 3800000)
         (snd (createResetCode (quiet_env 3600000)
           (snd (invalidateActiveResets (quiet_env 3600000)
             (snd (createResetCode (quiet_env 0) empty_world user1 codeA)) user1))
           user1 codeB))
         codeB user1) = (None, Some True)"
proof -
  have io: "save_error (quiet_env 0) = None" "update_error (quiet_env 3600000) = None"
    "save_error (quiet_env 3600000) = None" "find_error (quiet_env 3700000) = None"
    "find_error (quiet_env 3800000) = None" "update_error (quiet_env 3800000) = None"
    by (simp_all add: quiet_env_def)
  have diff: "codeA \<noteq> codeB"
    by (simp add: codeA_def codeB_def)
  have later: "now (quiet_env 3600000) \<le> now (quiet_env 3700000)"
    by (simp add: quiet_env_def)
  have win: "now (quiet_env 3800000) - now (quiet_env 3600000) \<le> RESET_EXPIRY_TIME"
    by (simp add: quiet_env_def RESET_EXPIRY_TIME_def)
  from reissue_after_invalidation [OF io diff later win, of empty_world user1] io diff later win
  show ?thesis
    by (simp add: Let_def)
qed

text \<open>
  The claim as written says that issuing alone invalidates. After \<open>createResetCode\<close> for C1
  and then for C2, with no call of \<open>invalidateActiveResets\<close>, C1 still validates.
\<close>

theorem createResetCode_keeps_older_counterexample:
  "fst (validateReset (quiet_env 3700000)
         (snd (createResetCode (quiet_env 3600000)
           (snd (createResetCode (quiet_env 0) empty_world user1 codeA)) user1 codeB))
         codeA user1) = (None, Some True)"
  by (simp add: reset_eval)

subsection \<open>Two verifications at once\<close>

text \<open>
  C6. The claim asks for one atomic conditional update. The code reads with \<open>find\<close> and
  writes with \<open>updateAttributes\<close>, two store calls with the event loop free in between,
  and the write is an update by primary key that does not look at \<open>used\<close>. Two requests
  for the same login token whose reads both run before either write both find row 0 and
  both call back without error; two requests for the same reset code both call back
  \<open>(null, true)\<close>.
\<close>

theorem verification_race:
  "lookupToken_find (quiet_env 2000)
     (empty_world\<lparr>loginTokens := [loginToken_build ''lusab-babad'' 1 1000]\<rparr>) user1 ''lusab-babad''
     = Inr (Some 0) \<and>
   lookupToken_find (quiet_env 2001)
     (empty_world\<lparr>loginTokens := [loginToken_build ''lusab-babad'' 1 1000]\<rparr>) user1 ''lusab-babad''
     = Inr (Some 0) \<and>
   lookupToken_then (quiet_env 2000)
     (empty_world\<lparr>loginTokens := [loginToken_build ''lusab-babad'' 1 1000]\<rparr>) (Some 0)
     = (None, empty_world\<lparr>loginTokens := [(loginToken_build ''lusab-babad'' 1 1000)\<lparr>lt_used := True\<rparr>]\<rparr>) \<and>
   lookupToken_then (quiet_env 2001)
     (empty_world\<lparr>loginTokens := [(loginToken_build ''lusab-babad'' 1 1000)\<lparr>lt_used := True\<rparr>]\<rparr>) (Some 0)
     = (None, empty_world\<lparr>loginTokens := [(loginToken_build ''lusab-babad'' 1 1000)\<lparr>lt_used := True\<rparr>]\<rparr>) \<and>
   validateReset_find (quiet_env 2000)
     (empty_world\<lparr>resetCodes := [resetCode_build codeA 1 1000]\<rparr>) codeA user1 = Inr (Some 0) \<and>
   validateReset_find (quiet_env 2001)
     (empty_world\<lparr>resetCodes := [resetCode_build codeA 1 1000]\<rparr>) codeA user1 = Inr (Some 0) \<and>
   validateReset_then (quiet_env 2000)
     (empty_world\<lparr>resetCodes := [resetCode_build codeA 1 1000]\<rparr>) (Some 0)
     = ((None, Some True),
        empty_world\<lparr>resetCodes := [(resetCode_build codeA 1 1000)\<lparr>rc_used := True\<rparr>]\<rparr>) \<and>
   validateReset_then (quiet_env 2001)
     (empty_world\<lparr>resetCodes := [(resetCode_build codeA 1 1000)\<lparr>rc_used := True\<rparr>]\<rparr>) (Some 0)
     = ((None, Some True),
        empty_world\<lparr>resetCodes := [(resetCode_build codeA 1 1000)\<lparr>rc_used := True\<rparr>]\<rparr>)"
  by (simp add: reset_eval lookupToken_find_def lookupToken_then_def token_where_def
      loginToken_build_def TOKEN_EXPIRY_TIME_def)

subsection \<open>Passwords\<close>

text \<open>
  Whatever the bcrypt callbacks receive as \<open>err\<close>, \<open>changePassword\<close> goes on to the
  update of the user's row; its callback receives nothing or the store's generic error, or
  is not called, and never receives the error of bcrypt.
\<close>

lemma changePassword_ignores_bcrypt_err:
  "update_error e = None \<Longrightarrow>
   users (snd (changePassword e w newPass u)) = set_usePasswordLogin True (uid u) (users w) \<and>
   (fst (changePassword e w newPass u) = NotCalled \<or>
    fst (changePassword e w newPass u) = Callback None \<or>
    fst (changePassword e w newPass u) = Callback (Some (ErrObj ''Login Database Error'')))"
  by (auto simp: changePassword_def Let_def split: option.splits prod.splits settled.splits)

text \<open>
  C7. The claim asks that a failing hash aborts \<open>changePassword\<close>. With a \<open>bcrypt.hash\<close>
  that reports an error and no hash, the code sets \<open>usePasswordLogin\<close>, stores a password
  row without a hash, sends the event and calls back without error.
\<close>

theorem changePassword_hash_failure_writes:
  "fst (bcrypt_hash hash_fails_env ''secret'' (snd (bcrypt_genSalt hash_fails_env BCRYPT_ROUNDS)))
     = Some ''bcrypt failure'' \<and>
   changePassword hash_fails_env no_pw_world ''secret'' user1 =
     (Callback None,
      empty_world
        \<lparr>passwords := [\<lparr>pw_id = Some 1, pw_UserId = Some 1, pw_saltedHash = None\<rparr>],
         users := [user1_row\<lparr>usePasswordLogin := True\<rparr>],
         hatchet := [(''user-password-changed'',
                      [(''email'', JString ''ada@example.org''), (''username'', JString ''ada'')])]\<rparr>)"
  by (simp add: pw_eval)

text \<open>
  C8, as the code has it. Let the passwords table hold at most one row owned by the user,
  and let the password instance loaded on the user, if it has a primary key, be the key of
  exactly one row of the table. When the store calls succeed, \<open>changePassword\<close> leaves
  exactly one row owned by the user, carrying the new hash: the loaded row under its old
  key when there is one, a new row otherwise. It sets \<open>usePasswordLogin\<close> on the user's
  row, sends \<open>user-password-changed\<close> with the fields \<open>email\<close> and \<open>username\<close> and no
  other, and calls back without error. When the update of the user's row fails, or the
  setter's last save fails after its earlier store calls succeeded, the callback receives
  \<open>{error: "Login Database Error"}\<close>.
\<close>

theorem changePassword_one_credential:
  assumes one: "length (filter (linked_to (uid u)) (passwords w)) \<le> 1"
    and loaded: "\<forall>p i. user_password u = Some p \<and> pw_id p = Some i \<longrightarrow>
                   length (filter (\<lambda>r. pw_id r = Some i) (passwords w)) = 1"
  shows "(let (res, w') = changePassword e w newPass u;
              hash = snd (bcrypt_hash e newPass (snd (bcrypt_genSalt e BCRYPT_ROUNDS)))
          in (update_error e = None \<and> getPassword_error e = None \<and> unlink_error e = None \<and>
              link_error e = None \<longrightarrow>
                res = Callback None \<and>
                (\<exists>p'. filter (linked_to (uid u)) (passwords w') = [p'] \<and>
                      pw_saltedHash p' = hash \<and>
                      (case user_password u of
                         None \<Rightarrow> length (passwords w') = Suc (length (passwords w))
                       | Some p \<Rightarrow>
                           (case pw_id p of
                              None \<Rightarrow> length (passwords w') = Suc (length (passwords w))
                            | Some i \<Rightarrow> pw_id p' = Some i \<and>
                                length (passwords w') = length (passwords w)))) \<and>
                users w' = map (\<lambda>r. if uid r = uid u then r\<lparr>usePasswordLogin := True\<rparr> else r) (users w) \<and>
                hatchet w' = hatchet w @
                  [(''user-password-changed'',
                    [(''email'', JString (email u)), (''username'', JString (username u))])] \<and>
                loginTokens w' = loginTokens w \<and> resetCodes w' = resetCodes w) \<and>
             (update_error e \<noteq> None \<or>
              (getPassword_error e = None \<and> unlink_error e = None \<and> link_error e \<noteq> None) \<longrightarrow>
                res = Callback (Some (ErrObj ''Login Database Error''))))"
proof -
  define hash where "hash = snd (bcrypt_hash e newPass (snd (bcrypt_genSalt e BCRYPT_ROUNDS)))"
  define pass where "pass =
    (case user_password u of Some p \<Rightarrow> p | None \<Rightarrow> password_build)\<lparr>pw_saltedHash := hash\<rparr>"
  obtain res w' where run: "changePassword e w newPass u = (res, w')"
    by (cases "changePassword e w newPass u")
  have fails: "res = Callback (Some (ErrObj ''Login Database Error''))"
    if "update_error e \<noteq> None \<or>
        (getPassword_error e = None \<and> unlink_error e = None \<and> link_error e \<noteq> None)"
    using that run
    by (auto simp: changePassword_def setPassword_def link_password_def Let_def
        split: option.splits)
  have works: "res = Callback None \<and>
                (\<exists>p'. filter (linked_to (uid u)) (passwords w') = [p'] \<and>
                      pw_saltedHash p' = hash \<and>
                      (case user_password u of
                         None \<Rightarrow> length (passwords w') = Suc (length (passwords w))
                       | Some p \<Rightarrow>
                           (case pw_id p of
                              None \<Rightarrow> length (passwords w') = Suc (length (passwords w))
                            | Some i \<Rightarrow> pw_id p' = Some i \<and>
                                length (passwords w') = length (passwords w)))) \<and>
                users w' = map (\<lambda>r. if uid r = uid u then r\<lparr>usePasswordLogin := True\<rparr> else r) (users w) \<and>
                hatchet w' = hatchet w @
                  [(''user-password-changed'',
                    [(''email'', JString (email u)), (''username'', JString (username u))])] \<and>
                loginTokens w' = loginTokens w \<and> resetCodes w' = resetCodes w"
    if io: "update_error e = None \<and> getPassword_error e = None \<and> unlink_error e = None \<and>
            link_error e = None"
  proof -
    have key: "\<forall>i. pw_id pass = Some i \<longrightarrow>
        length (filter (\<lambda>r. pw_id r = Some i) (passwords w)) = 1"
      using loaded by (auto simp: pass_def password_build_def split: option.splits)
    from io have io': "getPassword_error e = None" "unlink_error e = None" "link_error e = None"
      by simp_all
    from setPassword_one [OF io' one key]
    obtain p' rows' where p':
      "setPassword e (uid u) pass (passwords w) = (Resolved, rows')"
      "filter (linked_to (uid u)) rows' = [p']"
      "pw_saltedHash p' = pw_saltedHash pass"
      "case pw_id pass of
         Some i \<Rightarrow> pw_id p' = Some i \<and> length rows' = length (passwords w)
       | None \<Rightarrow> length rows' = Suc (length (passwords w))"
      by blast
    have w': "res = Callback None"
      "w' = w\<lparr>users := set_usePasswordLogin True (uid u) (users w),
             passwords := rows',
             hatchet := hatchet w @
               [(''user-password-changed'',
                 [(''email'', JString (email u)), (''username'', JString (username u))])]\<rparr>"
      using run io p'(1)
      by (simp_all add: changePassword_def Let_def pass_def hash_def)
    have shape: "case user_password u of
         None \<Rightarrow> length (passwords w') = Suc (length (passwords w))
       | Some p \<Rightarrow>
           (case pw_id p of
              None \<Rightarrow> length (passwords w') = Suc (length (passwords w))
            | Some i \<Rightarrow> pw_id p' = Some i \<and> length (passwords w') = length (passwords w))"
      using p'(4) by (auto simp: w'(2) pass_def password_build_def split: option.splits)
    have cred: "\<exists>p'. filter (linked_to (uid u)) (passwords w') = [p'] \<and>
                      pw_saltedHash p' = hash \<and>
                      (case user_password u of
                         None \<Rightarrow> length (passwords w') = Suc (length (passwords w))
                       | Some p \<Rightarrow>
                           (case pw_id p of
                              None \<Rightarrow> length (passwords w') = Suc (length (passwords w))
                            | Some i \<Rightarrow> pw_id p' = Some i \<and>
                                length (passwords w') = length (passwords w)))"
      using p'(2,3) shape by (intro exI [of _ p']) (simp add: w'(2) pass_def)
    have rest: "users w' = map (\<lambda>r. if uid r = uid u then r\<lparr>usePasswordLogin := True\<rparr> else r) (users w)"
      "hatchet w' = hatchet w @
         [(''user-password-changed'',
           [(''email'', JString (email u)), (''username'', JString (username u))])]"
      "loginTokens w' = loginTokens w" "resetCodes w' = resetCodes w"
      by (simp_all add: w'(2) set_usePasswordLogin_def)
    from w'(1) cred rest show ?thesis
      by (intro conjI)
  qed
  show ?thesis
    unfolding run prod.case Let_def hash_def [symmetric]
    by (rule conjI [OF impI [OF works] impI [OF fails]])
qed

theorem changePassword_one_credential_witness:
  "length (filter (linked_to (uid user1_loaded)) (passwords pw_world)) \<le> 1 \<and>
   user_password user1_loaded = Some pw_old \<and> pw_id pw_old = Some 7 \<and>
   length (filter (\<lambda>r. pw_id r = Some 7) (passwords pw_world)) = 1 \<and>
   changePassword (quiet_env 1000) pw_world ''secret'' user1_loaded =
     (Callback None,
      empty_world
        \<lparr>passwords := [\<lparr>pw_id = Some 7, pw_UserId = Some 1, pw_saltedHash = Some ''hash:secret''\<rparr>],
         users := [user1_row\<lparr>usePasswordLogin := True\<rparr>],
         hatchet := [(''user-password-changed'',
                      [(''email'', JString ''ada@example.org''), (''username'', JString ''ada'')])]\<rparr>) \<and>
   changePassword (quiet_env 1000) no_pw_world ''secret'' user1 =
     (Callback None,
      empty_world
        \<lparr>passwords := [\<lparr>pw_id = Some 1, pw_UserId = Some 1, pw_saltedHash = Some ''hash:secret''\<rparr>],
         users := [user1_row\<lparr>usePasswordLogin := True\<rparr>],
         hatchet := [(''user-password-changed'',
                      [(''email'', JString ''ada@example.org''), (''username'', JString ''ada'')])]\<rparr>) \<and>
   fst (changePassword store_down_env pw_world ''secret'' user1_loaded) =
     Callback (Some (ErrObj ''Login Database Error'')) \<and>
   changePassword link_fails_env pw_world ''secret'' user1_loaded =
     (Callback (Some (ErrObj ''Login Database Error'')),
      empty_world
        \<lparr>passwords := [pw_old\<lparr>pw_UserId := None\<rparr>],
         users := [user1_row\<lparr>usePasswordLogin := True\<rparr>]\<rparr>)"
proof -
  have one: "length (filter (linked_to (uid user1_loaded)) (passwords pw_world)) \<le> 1"
    and loaded: "\<forall>p i. user_password user1_loaded = Some p \<and> pw_id p = Some i \<longrightarrow>
                   length (filter (\<lambda>r. pw_id r = Some i) (passwords pw_world)) = 1"
    by (simp_all add: pw_eval)
  have "fst (changePassword store_down_env pw_world ''secret'' user1_loaded) =
     Callback (Some (ErrObj ''Login Database Error''))"
    using changePassword_one_credential [OF one loaded, of store_down_env "''secret''"]
    by (simp add: split_beta Let_def store_down_env_def quiet_env_def)
  moreover have "fst (changePassword (quiet_env 1000) pw_world ''secret'' user1_loaded) =
     Callback None"
    using changePassword_one_credential [OF one loaded, of "quiet_env 1000" "''secret''"]
    by (simp add: split_beta Let_def quiet_env_def)
  ultimately show ?thesis
    by (simp add: pw_eval)
qed

text \<open>
  The claim as written holds for every user and says that a store failure surfaces the
  generic error. Three runs show otherwise. After \<open>removePassword\<close> the same user object
  still carries the destroyed instance; \<open>changePassword\<close> then updates a key that no row
  has and calls back without error, and the user owns no password row. With two rows
  owned by the user beforehand, two are owned afterwards. And when the setter's unlinking
  save fails, the callback is not called at all.
\<close>

theorem changePassword_one_credential_counterexample:
  "removePassword (quiet_env 1000) pw_world user1_loaded = Calls (None, no_pw_world) \<and>
   fst (changePassword (quiet_env 2000) no_pw_world ''secret'' user1_loaded) = Callback None \<and>
   filter (linked_to 1)
     (passwords (snd (changePassword (quiet_env 2000) no_pw_world ''secret'' user1_loaded))) = [] \<and>
   length (filter (linked_to 1) (passwords two_pw_world)) = 2 \<and>
   fst (changePassword (quiet_env 1000) two_pw_world ''secret'' user1) = Callback None \<and>
   length (filter (linked_to 1)
     (passwords (snd (changePassword (quiet_env 1000) two_pw_world ''secret'' user1)))) = 2 \<and>
   unlink_error unlink_fails_env = Some ''ECONNRESET'' \<and>
   fst (changePassword unlink_fails_env pw_world ''secret'' user1_loaded) = NotCalled"
  by (simp add: pw_eval)

text \<open>
  C10. For a user without a loaded password, \<open>removePassword\<close> and \<open>compare\<close> throw a
  TypeError and call no callback, so the generic \<open>{error: "Error removing password"}\<close> is
  not what the caller gets. For a user with one, both call their callback:
  \<open>removePassword\<close> with nothing or with the generic error, \<open>compare\<close> with what
  \<open>bcrypt.compare\<close> answers for the stored hash.
\<close>

theorem removePassword_needs_password:
  "(user_password u = None \<longrightarrow>
      removePassword e w u = Throws ''TypeError'' \<and> compare e pass u = Throws ''TypeError'') \<and>
   (\<forall>p. user_password u = Some p \<longrightarrow>
      (\<exists>r w'. removePassword e w u = Calls (r, w') \<and>
         (r = None \<or> r = Some (ErrObj ''Error removing password''))) \<and>
      compare e pass u = Calls (bcrypt_compare e pass (pw_saltedHash p)))"
  by (auto simp: removePassword_def compare_def Let_def split: option.splits)

theorem removePassword_needs_password_witness:
  "user_password user1 = None \<and>
   removePassword (quiet_env 1000) no_pw_world user1 = Throws ''TypeError'' \<and>
   compare (quiet_env 1000) ''secret'' user1 = Throws ''TypeError'' \<and>
   user_password user1_loaded = Some pw_old \<and>
   removePassword (quiet_env 1000) pw_world user1_loaded = Calls (None, no_pw_world) \<and>
   compare (quiet_env 1000) ''old'' user1_loaded = Calls (None, Some True)"
proof -
  have a: "user_password user1 = None" and b: "user_password user1_loaded = Some pw_old"
    by (simp_all add: pw_eval)
  from removePassword_needs_password [of user1 "quiet_env 1000" no_pw_world "''secret''"] a
  have "removePassword (quiet_env 1000) no_pw_world user1 = Throws ''TypeError'' \<and>
    compare (quiet_env 1000) ''secret'' user1 = Throws ''TypeError''"
    by simp
  moreover
  from removePassword_needs_password [of user1_loaded "quiet_env 1000" pw_world "''old''"] b
  have "compare (quiet_env 1000) ''old'' user1_loaded =
      Calls (bcrypt_compare (quiet_env 1000) ''old'' (pw_saltedHash pw_old))"
    by simp
  then have "compare (quiet_env 1000) ''old'' user1_loaded = Calls (None, Some True)"
    by (simp add: quiet_env_def pw_old_def)
  moreover have "removePassword (quiet_env 1000) pw_world user1_loaded = Calls (None, no_pw_world)"
    by (simp add: pw_eval)
  ultimately show ?thesis
    using a b by simp
qed

end
